theory Spec2Isabelle
  imports Main "HOL-Library.Word" "HOL-Library.Signed_Division"
begin

section \<open>Observable effects\<close>

text \<open>
  The code under \<^verbatim>\<open>selfdrive/ui\<close> computes almost nothing: it calls out to the
  hardware layer, to the Flutter embedder and to the C++ runtime. Each such call
  is recorded, in program order, as one entry of a trace.
\<close>

datatype FlValue =
    FlValueNull
  | FlValueBool bool
  | FlValueString string
  | FlValueUint8List "8 word list"

datatype FlMethodChannel = FlMethodChannel string

datatype event =
    QObject_ctor
  | Hardware_set_display_power bool
  | Cout string
  | Sleep_for_seconds nat
  | Gtk_widget_show
  | Fl_method_channel_set_method_call_handler
  | Thread_detach
  | Fl_method_channel_invoke_method "FlMethodChannel option" string FlValue

section \<open>device.h, device.cc\<close>

text \<open>\<^verbatim>\<open>class Device\<close> has the single data member \<^verbatim>\<open>bool awake = false\<close>.\<close>

record Device =
  awake :: bool

definition Device_initial :: Device where
  "Device_initial = \<lparr>awake = False\<rparr>"

text \<open>
  \<^verbatim>\<open>void Device::setAwake(bool on)\<close>: the object and the trace go in, the updated
  object and the extended trace come out. The hardware call receives the member
  \<^verbatim>\<open>awake\<close> as read after the assignment.
\<close>

definition setAwake :: "bool \<Rightarrow> Device \<Rightarrow> event list \<Rightarrow> Device \<times> event list" where
  "setAwake on d tr =
     (if on \<noteq> awake d then
        (let d' = d\<lparr>awake := on\<rparr>
         in (d', tr @ [Hardware_set_display_power (awake d')]))
      else (d, tr))"

text \<open>
  \<^verbatim>\<open>Device::Device(QObject *parent) : QObject(parent) { setAwake(true); }\<close>:
  the base class is initialised, the member takes its declared initial value,
  then the body runs.
\<close>

definition Device_ctor :: "event list \<Rightarrow> Device \<times> event list" where
  "Device_ctor tr = setAwake True Device_initial (tr @ [QObject_ctor])"

text \<open>A client calling \<^verbatim>\<open>setAwake\<close> several times in a row on one object.\<close>

fun setAwakes :: "bool list \<Rightarrow> Device \<times> event list \<Rightarrow> Device \<times> event list" where
  "setAwakes [] s = s"
| "setAwakes (on # ons) s = setAwakes ons (setAwake on (fst s) (snd s))"

text \<open>The arguments of the hardware power calls of a trace, oldest first.\<close>

fun display_power_calls :: "event list \<Rightarrow> bool list" where
  "display_power_calls [] = []"
| "display_power_calls (Hardware_set_display_power b # es) = b # display_power_calls es"
| "display_power_calls (e # es) = display_power_calls es"

definition last_display_power :: "event list \<Rightarrow> bool option" where
  "last_display_power tr =
     (case rev (display_power_calls tr) of [] \<Rightarrow> None | b # bs \<Rightarrow> Some b)"

section \<open>flutter_bridge.cc\<close>

subsection \<open>Process state\<close>

text \<open>
  Two variables outlive a call: the function-local \<^verbatim>\<open>static Device _device\<close> of
  \<^verbatim>\<open>device()\<close>, which does not exist (\<open>None\<close>) until control first passes its
  declaration, and the file-level \<^verbatim>\<open>static FlMethodChannel* channel = nullptr\<close>,
  where \<open>None\<close> is the null pointer.
\<close>

record world =
  device_static :: "Device option"
  channel :: "FlMethodChannel option"
  trace :: "event list"

definition process_start :: world where
  "process_start = \<lparr>device_static = None, channel = None, trace = []\<rparr>"

text \<open>The only \<^verbatim>\<open>Device*\<close> the program ever forms is \<^verbatim>\<open>&_device\<close>.\<close>

datatype Device_ptr = Addr_device_static

text \<open>
  \<^verbatim>\<open>Device *device() { static Device _device; return &_device; }\<close>:
  the constructor runs when the static does not exist yet, and never otherwise.
\<close>

definition device :: "world \<Rightarrow> Device_ptr \<times> world" where
  "device w =
     (case device_static w of
        None \<Rightarrow>
          (case Device_ctor (trace w) of
             (d, tr) \<Rightarrow> (Addr_device_static, w\<lparr>device_static := Some d, trace := tr\<rparr>))
      | Some d \<Rightarrow> (Addr_device_static, w))"

text \<open>
  \<^verbatim>\<open>p->setAwake(on)\<close>. A pointer is obtained from \<^verbatim>\<open>device()\<close> only, so the
  object exists whenever the call is made; the \<open>None\<close> branch is not reached by the
  program and leaves the state alone.
\<close>

definition Device_ptr_setAwake :: "Device_ptr \<Rightarrow> bool \<Rightarrow> world \<Rightarrow> world" where
  "Device_ptr_setAwake p on w =
     (case p of
        Addr_device_static \<Rightarrow>
          (case device_static w of
             None \<Rightarrow> w
           | Some d \<Rightarrow>
               (case setAwake on d (trace w) of
                  (d', tr) \<Rightarrow> w\<lparr>device_static := Some d', trace := tr\<rparr>)))"

subsection \<open>Inbound method calls\<close>

text \<open>
  An \<^verbatim>\<open>FlMethodCall\<close> is read through \<^verbatim>\<open>fl_method_call_get_name\<close> and
  \<^verbatim>\<open>fl_method_call_get_args\<close> only. The name is the character sequence before the
  terminating NUL, so \<^verbatim>\<open>strcmp(method, lit) == 0\<close> is equality of strings.
\<close>

record FlMethodCall =
  fl_method_call_get_name :: string
  fl_method_call_get_args :: FlValue

text \<open>
  \<^verbatim>\<open>method_call_handler\<close>. The embedder's \<^verbatim>\<open>fl_value_get_bool\<close> is a parameter.
  The handler's own parameters \<^verbatim>\<open>channel\<close> and \<^verbatim>\<open>user_data\<close> are never read.
  \<^verbatim>\<open>std::cout << bool\<close> prints \<^verbatim>\<open>1\<close> or \<^verbatim>\<open>0\<close>; \<^verbatim>\<open>std::endl\<close> ends the line.
\<close>

definition method_call_handler :: "(FlValue \<Rightarrow> bool) \<Rightarrow> FlMethodCall \<Rightarrow> world \<Rightarrow> world" where
  "method_call_handler fl_value_get_bool method_call w =
     (let method = fl_method_call_get_name method_call in
      if method = ''setMetric'' then
        (let args = fl_method_call_get_args method_call;
             is_metric = fl_value_get_bool args
         in w\<lparr>trace := trace w @
                 [Cout (''is_metric: '' @ (if is_metric then ''1'' else ''0'') @ ''\<newline>'')]\<rparr>)
      else if method = ''setAwake'' then
        (let args = fl_method_call_get_args method_call;
             awake' = fl_value_get_bool args
         in case device w of (p, w1) \<Rightarrow> Device_ptr_setAwake p awake' w1)
      else w)"

subsection \<open>Outbound camera frames\<close>

text \<open>
  \<^verbatim>\<open>int\<close> is 32 bits wide and signed, from \<open>- 2 ^ 31\<close> to \<open>2 ^ 31 - 1\<close>. A product
  that does not fit is undefined behaviour in C++, which the model reports as a
  fault instead of choosing a value. Division by the constant 2 truncates towards zero and cannot fault.
\<close>

type_synonym cint = "32 word"

datatype fault = Signed_overflow | Out_of_bounds_read

definition fits_int :: "int \<Rightarrow> bool" where
  "fits_int k \<longleftrightarrow> - 2147483648 \<le> k \<and> k \<le> 2147483647"

definition int_mul :: "cint \<Rightarrow> cint \<Rightarrow> fault + cint" where
  "int_mul a b =
     (let r = sint a * sint b
      in if fits_int r then Inr (word_of_int r) else Inl Signed_overflow)"

definition int_div_2 :: "cint \<Rightarrow> cint" where
  "int_div_2 a = word_of_int (sint a sdiv 2)"

text \<open>\<^verbatim>\<open>width * height * 3 / 2\<close>, which C++ parses as \<^verbatim>\<open>((width * height) * 3) / 2\<close>.\<close>

definition frame_length :: "cint \<Rightarrow> cint \<Rightarrow> fault + cint" where
  "frame_length width height =
     (case int_mul width height of
        Inl e \<Rightarrow> Inl e
      | Inr wh \<Rightarrow>
          (case int_mul wh 3 of
             Inl e \<Rightarrow> Inl e
           | Inr wh3 \<Rightarrow> Inr (int_div_2 wh3)))"

text \<open>
  The second parameter of \<^verbatim>\<open>fl_value_new_uint8_list\<close> is a \<^verbatim>\<open>size_t\<close> (64 bits
  on the target): the \<^verbatim>\<open>int\<close> is converted to the value congruent to it modulo
  \<open>2 ^ 64 = 18446744073709551616\<close>.
\<close>

definition size_t_of_int :: "cint \<Rightarrow> nat" where
  "size_t_of_int n = nat (sint n mod 18446744073709551616)"

text \<open>
  The embedder's \<^verbatim>\<open>fl_value_new_uint8_list(value, value_length)\<close> copies
  \<open>value_length\<close> bytes starting at \<open>value\<close>. The argument \<open>data\<close> stands for the
  bytes of the buffer the pointer refers to; asking for more is a read past its end.
\<close>

definition fl_value_new_uint8_list :: "8 word list \<Rightarrow> nat \<Rightarrow> fault + FlValue" where
  "fl_value_new_uint8_list data value_length =
     (if value_length \<le> length data then Inr (FlValueUint8List (take value_length data))
      else Inl Out_of_bounds_read)"

definition flutter_bridge_send_camera_frame ::
    "8 word list \<Rightarrow> cint \<Rightarrow> cint \<Rightarrow> world \<Rightarrow> fault + world" where
  "flutter_bridge_send_camera_frame data width height w =
     (if channel w \<noteq> None then
        (case frame_length width height of
           Inl e \<Rightarrow> Inl e
         | Inr n \<Rightarrow>
             (case fl_value_new_uint8_list data (size_t_of_int n) of
                Inl e \<Rightarrow> Inl e
              | Inr camera_frame \<Rightarrow>
                  Inr (w\<lparr>trace := trace w @
                         [Fl_method_channel_invoke_method (channel w)
                            ''updateCameraFrame'' camera_frame]\<rparr>)))
      else Inr w)"

subsection \<open>The periodic push\<close>

text \<open>One pass through the body of \<^verbatim>\<open>while (true)\<close> in \<^verbatim>\<open>send_data\<close>.\<close>

definition send_data_body :: "world \<Rightarrow> world" where
  "send_data_body w =
     w\<lparr>trace := trace w @
        [Sleep_for_seconds 1,
         Fl_method_channel_invoke_method (channel w)
           ''updateDeviceInfo'' (FlValueString ''Device Info: ...\<newline>''),
         Fl_method_channel_invoke_method (channel w)
           ''updateCarInfo'' (FlValueString ''Car Info: ...\<newline>'')]\<rparr>"

text \<open>
  \<^verbatim>\<open>send_data\<close> itself, run for a bounded number of passes. The loop condition is
  the constant \<^verbatim>\<open>true\<close> and the body has no \<^verbatim>\<open>break\<close> or \<^verbatim>\<open>return\<close>. With \<open>fuel\<close>
  passes allowed, the outcome is either that the function has returned, or that
  it is still in its loop when the passes are used up; both carry the state
  reached.
\<close>

datatype 'a outcome = Returned 'a | Still_running 'a

primrec send_data :: "nat \<Rightarrow> world \<Rightarrow> world outcome" where
  "send_data 0 w = Still_running w"
| "send_data (Suc fuel) w =
     (if True then send_data fuel (send_data_body w) else Returned w)"

subsection \<open>Start-up\<close>

text \<open>
  \<^verbatim>\<open>flutter_bridge_init\<close>: the device is created, the view is shown, the channel
  named \<^verbatim>\<open>agnos_flutter\<close> is stored in the global, the handler is registered and
  the thread running \<^verbatim>\<open>send_data\<close> is detached.
\<close>

definition flutter_bridge_init :: "world \<Rightarrow> world" where
  "flutter_bridge_init w =
     (let w1 = snd (device w);
          w2 = w1\<lparr>trace := trace w1 @ [Gtk_widget_show]\<rparr>;
          w3 = w2\<lparr>channel := Some (FlMethodChannel ''agnos_flutter'')\<rparr>
      in w3\<lparr>trace := trace w3 @ [Fl_method_channel_set_method_call_handler, Thread_detach]\<rparr>)"

subsection \<open>Runs of the process\<close>

text \<open>
  Everything that can happen to the process state: a call of one of the
  functions above, or one pass of the detached thread through its loop body.
  A run stops at the first fault.
\<close>

datatype call =
    Call_device
  | Call_flutter_bridge_init
  | Call_method_call_handler FlMethodCall
  | Call_flutter_bridge_send_camera_frame "8 word list" cint cint
  | Pass_send_data_body

fun step :: "(FlValue \<Rightarrow> bool) \<Rightarrow> call \<Rightarrow> world \<Rightarrow> fault + world" where
  "step g Call_device w = Inr (snd (device w))"
| "step g Call_flutter_bridge_init w = Inr (flutter_bridge_init w)"
| "step g (Call_method_call_handler c) w = Inr (method_call_handler g c w)"
| "step g (Call_flutter_bridge_send_camera_frame data width height) w =
     flutter_bridge_send_camera_frame data width height w"
| "step g Pass_send_data_body w = Inr (send_data_body w)"

fun run :: "(FlValue \<Rightarrow> bool) \<Rightarrow> call list \<Rightarrow> world \<Rightarrow> fault + world" where
  "run g [] w = Inr w"
| "run g (c # cs) w = (case step g c w of Inl e \<Rightarrow> Inl e | Inr w' \<Rightarrow> run g cs w')"

text \<open>How often the base-class constructor, and so the \<^verbatim>\<open>Device\<close> constructor, has run.\<close>

definition constructions :: "world \<Rightarrow> nat" where
  "constructions w = count_list (trace w) QObject_ctor"

text \<open>
  The bookkeeping that every run maintains: the constructor has run once when the
  static exists and not at all when it does not.
\<close>

definition ctor_inv :: "world \<Rightarrow> bool" where
  "ctor_inv w \<longleftrightarrow> constructions w = (if device_static w = None then 0 else 1)"

text \<open>The byte count that a mathematical \<^verbatim>\<open>int\<close> value \<open>n\<close> denotes once read as \<^verbatim>\<open>size_t\<close>.\<close>

definition frame_bytes :: "int \<Rightarrow> nat" where
  "frame_bytes n = (if n < 0 then nat (n + 18446744073709551616) else nat n)"

text \<open>
  The flag and the hardware agree: no power call before the device exists, and
  afterwards the latest power call carries the value of the flag.
\<close>

definition hardware_agrees :: "world \<Rightarrow> bool" where
  "hardware_agrees w =
     (case device_static w of
        None \<Rightarrow> display_power_calls (trace w) = []
      | Some d \<Rightarrow> last_display_power (trace w) = Some (awake d))"

section \<open>Properties of the device\<close>

lemma display_power_calls_append:
  "display_power_calls (xs @ ys) = display_power_calls xs @ display_power_calls ys"
  by (induction xs rule: display_power_calls.induct) simp_all

lemma last_display_power_snoc:
  "last_display_power (tr @ [Hardware_set_display_power b]) = Some b"
  by (simp add: last_display_power_def display_power_calls_append)

text \<open>
  C1. For every argument \<open>on\<close> and every device state: when \<open>on\<close> differs from the
  flag, \<^verbatim>\<open>setAwake\<close> stores \<open>on\<close> and appends exactly one hardware power call
  carrying \<open>on\<close>; when \<open>on\<close> equals the flag, object and trace are returned as they
  were. The function has a result for every input and that result carries
  nothing but the object and the trace: no value and no failure reach the caller.
\<close>

theorem setAwake_spec:
  "(on \<noteq> awake d \<longrightarrow>
      awake (fst (setAwake on d tr)) = on \<and>
      snd (setAwake on d tr) = tr @ [Hardware_set_display_power on]) \<and>
   (on = awake d \<longrightarrow> setAwake on d tr = (d, tr))"
  by (simp add: setAwake_def)

theorem setAwake_spec_witness:
  "awake (fst (setAwake True \<lparr>awake = False\<rparr> [])) = True \<and>
   snd (setAwake True \<lparr>awake = False\<rparr> []) = [Hardware_set_display_power True] \<and>
   setAwake True \<lparr>awake = True\<rparr> [] = (\<lparr>awake = True\<rparr>, [])"
  using setAwake_spec [of True "\<lparr>awake = False\<rparr>" "[]"]
        setAwake_spec [of True "\<lparr>awake = True\<rparr>" "[]"]
  by simp

text \<open>
  C3. Stated for every device, the claim fails: on a device that is already
  awake, as every device is when its constructor has returned, two calls of
  \<^verbatim>\<open>setAwake(true)\<close> reach the hardware not once but never.
\<close>

theorem setAwake_true_twice_counterexample:
  "length (display_power_calls (snd (setAwakes [True, True] (Device_ctor []))))
     \<noteq> length (display_power_calls (snd (Device_ctor []))) + 1"
  by (simp add: Device_ctor_def Device_initial_def setAwake_def)

text \<open>
  C3, amended. The second of two consecutive calls of \<^verbatim>\<open>setAwake(true)\<close> never
  reaches the hardware. Across the two calls the hardware power call is made
  exactly once when the flag was false before the first call, and not at all
  when it was true.
\<close>

theorem setAwake_true_twice:
  "setAwakes [True, True] (d, tr) = setAwake True d tr \<and>
   display_power_calls (snd (setAwakes [True, True] (d, tr))) =
     display_power_calls tr @ (if awake d then [] else [True])"
  by (simp add: setAwake_def display_power_calls_append)

theorem setAwake_true_twice_witness:
  "display_power_calls (snd (setAwakes [True, True] (Device_initial, []))) = [True] \<and>
   display_power_calls (snd (setAwakes [True, True] (\<lparr>awake = True\<rparr>, []))) = []"
  using setAwake_true_twice [of Device_initial "[]"]
        setAwake_true_twice [of "\<lparr>awake = True\<rparr>" "[]"]
  by (simp add: Device_initial_def setAwake_def)

text \<open>
  C4. The member is declared with the value false, and when the constructor has
  returned it is true: the constructor has initialised the base class and made
  one hardware power call with the value true.
\<close>

theorem Device_ctor_awake:
  "awake Device_initial = False \<and>
   awake (fst (Device_ctor tr)) = True \<and>
   snd (Device_ctor tr) = tr @ [QObject_ctor, Hardware_set_display_power True]"
  by (simp add: Device_ctor_def Device_initial_def setAwake_def)

lemma setAwake_keeps_agreement:
  assumes "last_display_power tr = Some (awake d)"
  shows "last_display_power (snd (setAwake on d tr)) = Some (awake (fst (setAwake on d tr)))"
  using assms by (simp add: setAwake_def last_display_power_snoc)

lemma setAwakes_keeps_agreement:
  "last_display_power (snd s) = Some (awake (fst s)) \<Longrightarrow>
   last_display_power (snd (setAwakes ons s)) = Some (awake (fst (setAwakes ons s)))"
proof (induction ons arbitrary: s)
  case Nil
  then show ?case by simp
next
  case (Cons on ons)
  have "last_display_power (snd (setAwake on (fst s) (snd s)))
          = Some (awake (fst (setAwake on (fst s) (snd s))))"
    using Cons.prems by (rule setAwake_keeps_agreement)
  then show ?case using Cons.IH by simp
qed

lemma Device_ctor_agreement:
  "last_display_power (snd (Device_ctor tr)) = Some (awake (fst (Device_ctor tr)))"
  by (simp add: Device_ctor_def Device_initial_def setAwake_def last_display_power_def
      display_power_calls_append)

section \<open>Properties of the bridge\<close>

text \<open>
  C2. A call whose name is neither \<^verbatim>\<open>setMetric\<close> nor \<^verbatim>\<open>setAwake\<close> leaves the whole
  process state as it was: the device and its flag, the channel, and the trace,
  so that no hardware call is made and nothing is sent back to the caller.
\<close>

theorem unknown_method_dropped:
  assumes "fl_method_call_get_name c \<noteq> ''setMetric''"
      and "fl_method_call_get_name c \<noteq> ''setAwake''"
  shows "method_call_handler g c w = w"
  using assms by (simp add: method_call_handler_def)

theorem unknown_method_dropped_witness:
  "method_call_handler (\<lambda>v. v = FlValueBool True)
     \<lparr>fl_method_call_get_name = ''setBrightness'', fl_method_call_get_args = FlValueBool True\<rparr>
     process_start = process_start"
  by (rule unknown_method_dropped) simp_all

lemma device_static_after_device:
  "\<exists>d. device_static (snd (device w)) = Some d"
  by (cases "device_static w") (simp_all add: device_def split: prod.splits)

text \<open>
  C5. The handler knows two names. For \<^verbatim>\<open>setAwake\<close> it obtains the device from
  \<^verbatim>\<open>device()\<close> and runs \<^verbatim>\<open>setAwake\<close> on it with the boolean read from the
  arguments. For \<^verbatim>\<open>setMetric\<close> it reads the boolean and prints one line; device
  and channel stay as they were. Any call that changes the state carries one of
  the two names.
\<close>

theorem method_call_handler_dispatch:
  "(fl_method_call_get_name c = ''setAwake'' \<longrightarrow>
      (\<exists>d. device_static (snd (device w)) = Some d \<and>
           method_call_handler g c w =
             (snd (device w))
               \<lparr>device_static :=
                  Some (fst (setAwake (g (fl_method_call_get_args c)) d (trace (snd (device w))))),
                trace := snd (setAwake (g (fl_method_call_get_args c)) d (trace (snd (device w))))\<rparr>)) \<and>
   (fl_method_call_get_name c = ''setMetric'' \<longrightarrow>
      device_static (method_call_handler g c w) = device_static w \<and>
      channel (method_call_handler g c w) = channel w \<and>
      trace (method_call_handler g c w) =
        trace w @ [Cout (''is_metric: '' @ (if g (fl_method_call_get_args c) then ''1'' else ''0'')
                          @ ''\<newline>'')]) \<and>
   (method_call_handler g c w \<noteq> w \<longrightarrow>
      fl_method_call_get_name c = ''setMetric'' \<or> fl_method_call_get_name c = ''setAwake'')"
proof -
  let ?b = "g (fl_method_call_get_args c)"
  let ?w1 = "snd (device w)"
  have awake_branch:
    "\<exists>d. device_static ?w1 = Some d \<and>
         method_call_handler g c w =
           ?w1\<lparr>device_static := Some (fst (setAwake ?b d (trace ?w1))),
               trace := snd (setAwake ?b d (trace ?w1))\<rparr>"
    if n: "fl_method_call_get_name c = ''setAwake''"
  proof -
    obtain d where d: "device_static ?w1 = Some d"
      using device_static_after_device by blast
    have p: "fst (device w) = Addr_device_static"
      by (cases "fst (device w)") simp
    have "method_call_handler g c w = Device_ptr_setAwake (fst (device w)) ?b ?w1"
      using n by (simp add: method_call_handler_def split: prod.splits)
    also have "\<dots> = ?w1\<lparr>device_static := Some (fst (setAwake ?b d (trace ?w1))),
                         trace := snd (setAwake ?b d (trace ?w1))\<rparr>"
      using d p by (simp add: Device_ptr_setAwake_def split: prod.splits)
    finally show ?thesis using d by blast
  qed
  have metric_branch:
    "device_static (method_call_handler g c w) = device_static w \<and>
     channel (method_call_handler g c w) = channel w \<and>
     trace (method_call_handler g c w) =
       trace w @ [Cout (''is_metric: '' @ (if ?b then ''1'' else ''0'') @ ''\<newline>'')]"
    if "fl_method_call_get_name c = ''setMetric''"
    using that by (simp add: method_call_handler_def)
  have others:
    "fl_method_call_get_name c = ''setMetric'' \<or> fl_method_call_get_name c = ''setAwake''"
    if changed: "method_call_handler g c w \<noteq> w"
  proof (rule ccontr)
    assume "\<not> (fl_method_call_get_name c = ''setMetric'' \<or>
                fl_method_call_get_name c = ''setAwake'')"
    then have "method_call_handler g c w = w"
      by (simp add: method_call_handler_def)
    with changed show False ..
  qed
  from awake_branch metric_branch others show ?thesis by blast
qed

theorem method_call_handler_dispatch_witness:
  "method_call_handler (\<lambda>v. v = FlValueBool True)
     \<lparr>fl_method_call_get_name = ''setAwake'', fl_method_call_get_args = FlValueBool False\<rparr>
     process_start =
   \<lparr>device_static = Some \<lparr>awake = False\<rparr>, channel = None,
    trace = [QObject_ctor, Hardware_set_display_power True, Hardware_set_display_power False]\<rparr> \<and>
   method_call_handler (\<lambda>v. v = FlValueBool True)
     \<lparr>fl_method_call_get_name = ''setMetric'', fl_method_call_get_args = FlValueBool True\<rparr>
     process_start =
   \<lparr>device_static = None, channel = None, trace = [Cout ''is_metric: 1\<newline>'']\<rparr>"
  using method_call_handler_dispatch
     [of "\<lparr>fl_method_call_get_name = ''setAwake'', fl_method_call_get_args = FlValueBool False\<rparr>"
         process_start "\<lambda>v. v = FlValueBool True"]
    method_call_handler_dispatch
     [of "\<lparr>fl_method_call_get_name = ''setMetric'', fl_method_call_get_args = FlValueBool True\<rparr>"
         process_start "\<lambda>v. v = FlValueBool True"]
  by (simp add: process_start_def device_def Device_ctor_def Device_initial_def setAwake_def
      method_call_handler_def Device_ptr_setAwake_def)

text \<open>
  C6. With a null channel \<^verbatim>\<open>flutter_bridge_send_camera_frame\<close> returns without
  sending, whatever its arguments. One pass of the loop in \<^verbatim>\<open>send_data\<close> sleeps
  and then hands the channel to \<^verbatim>\<open>fl_method_channel_invoke_method\<close> twice, whatever
  the channel is, the null pointer included.
\<close>

theorem null_channel_guard:
  "(channel w = None \<longrightarrow> flutter_bridge_send_camera_frame data width height w = Inr w) \<and>
   trace (send_data_body w) =
     trace w @
       [Sleep_for_seconds 1,
        Fl_method_channel_invoke_method (channel w) ''updateDeviceInfo''
          (FlValueString ''Device Info: ...\<newline>''),
        Fl_method_channel_invoke_method (channel w) ''updateCarInfo''
          (FlValueString ''Car Info: ...\<newline>'')]"
  by (simp add: flutter_bridge_send_camera_frame_def send_data_body_def)

theorem null_channel_guard_witness:
  "flutter_bridge_send_camera_frame [1, 2, 3, 4, 5, 6] 2 2 process_start = Inr process_start \<and>
   trace (send_data_body process_start) =
       [Sleep_for_seconds 1,
        Fl_method_channel_invoke_method None ''updateDeviceInfo''
          (FlValueString ''Device Info: ...\<newline>''),
        Fl_method_channel_invoke_method None ''updateCarInfo''
          (FlValueString ''Car Info: ...\<newline>'')]"
  using null_channel_guard [of process_start "[1, 2, 3, 4, 5, 6]" 2 2]
  by (simp add: process_start_def)

lemma send_data_fuel:
  "send_data n w =
     Still_running
       (w\<lparr>trace := trace w @ concat (replicate n
          [Sleep_for_seconds 1,
           Fl_method_channel_invoke_method (channel w) ''updateDeviceInfo''
             (FlValueString ''Device Info: ...\<newline>''),
           Fl_method_channel_invoke_method (channel w) ''updateCarInfo''
             (FlValueString ''Car Info: ...\<newline>'')])\<rparr>)"
proof (induction n arbitrary: w)
  case 0
  show ?case by simp
next
  case (Suc n)
  have body: "send_data_body w = w\<lparr>trace := trace w @
          [Sleep_for_seconds 1,
           Fl_method_channel_invoke_method (channel w) ''updateDeviceInfo''
             (FlValueString ''Device Info: ...\<newline>''),
           Fl_method_channel_invoke_method (channel w) ''updateCarInfo''
             (FlValueString ''Car Info: ...\<newline>'')]\<rparr>"
    by (simp add: send_data_body_def)
  have "send_data (Suc n) w = send_data n (send_data_body w)" by simp
  also note Suc.IH [of "send_data_body w"]
  finally show ?case by (simp add: body)
qed

text \<open>
  C7. \<^verbatim>\<open>send_data\<close> does not return: however many passes it is allowed, it is
  still in its loop when they are used up. By then every pass has first slept
  for one second, then pushed \<^verbatim>\<open>updateDeviceInfo\<close>, then pushed \<^verbatim>\<open>updateCarInfo\<close>,
  with the two fixed strings: after \<open>n\<close> passes the trace has grown by \<open>n\<close>
  copies of these three entries, in this order, and nothing else has changed.
\<close>

theorem send_data_never_returns:
  "send_data n w =
     Still_running
       (w\<lparr>trace := trace w @ concat (replicate n
          [Sleep_for_seconds 1,
           Fl_method_channel_invoke_method (channel w) ''updateDeviceInfo''
             (FlValueString ''Device Info: ...\<newline>''),
           Fl_method_channel_invoke_method (channel w) ''updateCarInfo''
             (FlValueString ''Car Info: ...\<newline>'')])\<rparr>) \<and>
   (\<forall>w'. send_data n w \<noteq> Returned w')"
  by (simp add: send_data_fuel)

theorem send_data_never_returns_witness:
  "send_data 2 process_start =
     Still_running
       \<lparr>device_static = None, channel = None,
        trace =
          [Sleep_for_seconds 1,
           Fl_method_channel_invoke_method None ''updateDeviceInfo''
             (FlValueString ''Device Info: ...\<newline>''),
           Fl_method_channel_invoke_method None ''updateCarInfo''
             (FlValueString ''Car Info: ...\<newline>''),
           Sleep_for_seconds 1,
           Fl_method_channel_invoke_method None ''updateDeviceInfo''
             (FlValueString ''Device Info: ...\<newline>''),
           Fl_method_channel_invoke_method None ''updateCarInfo''
             (FlValueString ''Car Info: ...\<newline>'')]\<rparr>"
  using send_data_never_returns [of 2 process_start]
  by (simp add: process_start_def numeral_2_eq_2)

section \<open>The static device\<close>

lemma count_ctor_setAwake:
  "count_list (snd (setAwake on d tr)) QObject_ctor = count_list tr QObject_ctor"
  by (simp add: setAwake_def)

lemma ctor_inv_device: "ctor_inv w \<Longrightarrow> ctor_inv (snd (device w))"
  by (cases "device_static w")
     (simp_all add: ctor_inv_def constructions_def device_def Device_ctor_def count_ctor_setAwake
        split: prod.splits, simp add: setAwake_def Device_initial_def)

lemma ctor_inv_Device_ptr_setAwake: "ctor_inv w \<Longrightarrow> ctor_inv (Device_ptr_setAwake p on w)"
  by (cases p; cases "device_static w")
     (auto simp add: ctor_inv_def constructions_def Device_ptr_setAwake_def setAwake_def
        split: prod.splits)

lemma ctor_inv_method_call_handler: "ctor_inv w \<Longrightarrow> ctor_inv (method_call_handler g c w)"
proof -
  assume i: "ctor_inv w"
  consider (metric) "fl_method_call_get_name c = ''setMetric''"
    | (awake) "fl_method_call_get_name c \<noteq> ''setMetric''" "fl_method_call_get_name c = ''setAwake''"
    | (other) "fl_method_call_get_name c \<noteq> ''setMetric''" "fl_method_call_get_name c \<noteq> ''setAwake''"
    by blast
  then show ?thesis
  proof cases
    case metric
    then show ?thesis using i
      by (simp add: method_call_handler_def ctor_inv_def constructions_def)
  next
    case awake
    then have "method_call_handler g c w =
        Device_ptr_setAwake (fst (device w)) (g (fl_method_call_get_args c)) (snd (device w))"
      by (simp add: method_call_handler_def split: prod.splits)
    then show ?thesis using i by (simp add: ctor_inv_device ctor_inv_Device_ptr_setAwake)
  next
    case other
    then show ?thesis using i by (simp add: method_call_handler_def)
  qed
qed

lemma ctor_inv_flutter_bridge_init: "ctor_inv w \<Longrightarrow> ctor_inv (flutter_bridge_init w)"
  using ctor_inv_device [of w]
  by (simp add: flutter_bridge_init_def ctor_inv_def constructions_def Let_def)

lemma ctor_inv_send_camera_frame:
  "ctor_inv w \<Longrightarrow> flutter_bridge_send_camera_frame data width height w = Inr w' \<Longrightarrow> ctor_inv w'"
  by (auto simp add: flutter_bridge_send_camera_frame_def ctor_inv_def constructions_def
       split: if_splits sum.splits)

lemma ctor_inv_send_data_body: "ctor_inv w \<Longrightarrow> ctor_inv (send_data_body w)"
  by (simp add: send_data_body_def ctor_inv_def constructions_def)

lemma ctor_inv_step: "ctor_inv w \<Longrightarrow> step g c w = Inr w' \<Longrightarrow> ctor_inv w'"
  by (cases c)
     (auto simp add: ctor_inv_device ctor_inv_flutter_bridge_init ctor_inv_method_call_handler
        ctor_inv_send_data_body intro: ctor_inv_send_camera_frame)

lemma ctor_inv_run: "ctor_inv w \<Longrightarrow> run g cs w = Inr w' \<Longrightarrow> ctor_inv w'"
proof (induction cs arbitrary: w)
  case Nil
  then show ?case by simp
next
  case (Cons c cs)
  then show ?case
    by (auto split: sum.splits dest: ctor_inv_step)
qed

lemma ctor_inv_process_start: "ctor_inv process_start"
  by (simp add: ctor_inv_def constructions_def process_start_def)

lemma device_twice: "device (snd (device w)) = device w"
  by (cases "device_static w") (simp_all add: device_def split: prod.splits)

lemma run_devices:
  "run g (replicate (Suc n) Call_device) process_start = Inr (snd (device process_start))"
proof -
  have "run g (replicate n Call_device) (snd (device w)) = Inr (snd (device w))" for w
    by (induction n) (simp_all add: device_twice)
  then show ?thesis by simp
qed

text \<open>
  C9. \<^verbatim>\<open>device()\<close> hands out one and the same pointer in every state, and a second
  call changes nothing. Called any positive number of times from the start of
  the process it constructs the device once, with the one hardware call of the
  constructor. In every state a run of the process can reach, whatever mixture
  of calls led there, the constructor has run at most once: once when the static
  exists, never when it does not.
\<close>

theorem device_constructed_once:
  "fst (device w) = fst (device w') \<and>
   device (snd (device w)) = device w \<and>
   run g (replicate (Suc n) Call_device) process_start =
     Inr \<lparr>device_static = Some \<lparr>awake = True\<rparr>, channel = None,
          trace = [QObject_ctor, Hardware_set_display_power True]\<rparr> \<and>
   (run g cs process_start = Inr w'' \<longrightarrow>
      constructions w'' = (if device_static w'' = None then 0 else 1))"
proof -
  have "fst (device w) = fst (device w')"
    by (cases "fst (device w)"; cases "fst (device w')") simp
  moreover have "run g cs process_start = Inr w'' \<longrightarrow>
      constructions w'' = (if device_static w'' = None then 0 else 1)"
    using ctor_inv_run [OF ctor_inv_process_start, of g cs w''] by (simp add: ctor_inv_def)
  moreover have "snd (device process_start) =
     \<lparr>device_static = Some \<lparr>awake = True\<rparr>, channel = None,
          trace = [QObject_ctor, Hardware_set_display_power True]\<rparr>"
    by (simp add: device_def process_start_def Device_ctor_def Device_initial_def setAwake_def)
  ultimately show ?thesis using device_twice [of w] run_devices [of g n] by simp
qed

theorem device_constructed_once_witness:
  "run (\<lambda>v. v = FlValueBool True)
     [Call_flutter_bridge_init,
      Call_method_call_handler
        \<lparr>fl_method_call_get_name = ''setAwake'', fl_method_call_get_args = FlValueBool False\<rparr>,
      Call_device]
     process_start =
   Inr \<lparr>device_static = Some \<lparr>awake = False\<rparr>,
        channel = Some (FlMethodChannel ''agnos_flutter''),
        trace = [QObject_ctor, Hardware_set_display_power True, Gtk_widget_show,
                 Fl_method_channel_set_method_call_handler, Thread_detach,
                 Hardware_set_display_power False]\<rparr> \<and>
   constructions
     \<lparr>device_static = Some \<lparr>awake = False\<rparr>,
        channel = Some (FlMethodChannel ''agnos_flutter''),
        trace = [QObject_ctor, Hardware_set_display_power True, Gtk_widget_show,
                 Fl_method_channel_set_method_call_handler, Thread_detach,
                 Hardware_set_display_power False]\<rparr> = 1"
proof -
  have run: "run (\<lambda>v. v = FlValueBool True)
     [Call_flutter_bridge_init,
      Call_method_call_handler
        \<lparr>fl_method_call_get_name = ''setAwake'', fl_method_call_get_args = FlValueBool False\<rparr>,
      Call_device]
     process_start =
   Inr \<lparr>device_static = Some \<lparr>awake = False\<rparr>,
        channel = Some (FlMethodChannel ''agnos_flutter''),
        trace = [QObject_ctor, Hardware_set_display_power True, Gtk_widget_show,
                 Fl_method_channel_set_method_call_handler, Thread_detach,
                 Hardware_set_display_power False]\<rparr>"
    by (simp add: process_start_def flutter_bridge_init_def device_def Device_ctor_def
        Device_initial_def setAwake_def method_call_handler_def Device_ptr_setAwake_def)
  show ?thesis
    using run device_constructed_once [THEN conjunct2, THEN conjunct2, THEN conjunct2, rule_format, OF run]
    by simp
qed

section \<open>The length of a camera frame\<close>

lemma sint_word_of_int_fits:
  "- 2147483648 \<le> r \<Longrightarrow> r < 2147483648 \<Longrightarrow> sint (word_of_int r :: 32 word) = r"
  by (simp add: sint_sbintrunc' signed_take_bit_int_eq_self)

lemma sint_range32: "- 2147483648 \<le> sint (n :: 32 word) \<and> sint n < 2147483648"
  using sint_ge [of n] sint_lt [of n] by simp

lemma mod_wrap: 
  fixes k m :: int
  assumes "- m \<le> k" "k < m" "0 < m"
  shows "k mod m = (if k < 0 then k + m else k)"
proof (cases "k < 0")
  case True
  have "k mod m = (k + m) mod m" by simp
  also have "\<dots> = k + m" using assms True by (intro mod_pos_pos_trivial) linarith+
  finally show ?thesis using True by simp
next
  case False
  then show ?thesis using assms by simp
qed

lemma size_t_of_int_eq: "size_t_of_int n = (if sint n < 0 then nat (sint n + 18446744073709551616) else nat (sint n))"
proof -
  have "sint n mod 18446744073709551616 = (if sint n < 0 then sint n + 18446744073709551616 else sint n)"
    using sint_range32 [of n] by (intro mod_wrap) linarith+
  then show ?thesis by (simp add: size_t_of_int_def)
qed

lemma sdiv2: "(k::int) sdiv 2 = (if k < 0 then - ((- k) div 2) else k div 2)"
  by (simp add: signed_divide_int_def sgn_if)

lemma sdiv2_bounds:
  fixes k :: int
  shows "- \<bar>k\<bar> \<le> 2 * (k sdiv 2) \<and> 2 * (k sdiv 2) \<le> \<bar>k\<bar>"
proof -
  have lin: "\<And>x q m :: int. x = 2 * q + m \<Longrightarrow> 0 \<le> m \<Longrightarrow> m < 2 \<Longrightarrow> 0 \<le> x \<Longrightarrow>
                0 \<le> 2 * q \<and> 2 * q \<le> x"
    by presburger
  show ?thesis
  proof (cases "k < 0")
    case True
    define q where "q = (- k) div 2"
    have b: "0 \<le> 2 * q \<and> 2 * q \<le> - k"
      using True unfolding q_def by (intro lin [of "- k" _ "(- k) mod 2"]) simp_all
    have e: "k sdiv 2 = - q" using True by (simp add: sdiv2 q_def)
    show ?thesis unfolding e using b True by linarith
  next
    case False
    define q where "q = k div 2"
    have b: "0 \<le> 2 * q \<and> 2 * q \<le> k"
      using False unfolding q_def by (intro lin [of k _ "k mod 2"]) simp_all
    have e: "k sdiv 2 = q" using False by (simp add: sdiv2 q_def)
    show ?thesis unfolding e using b False by linarith
  qed
qed

lemma sint_int_div_2: "sint (int_div_2 a) = sint a sdiv 2"
proof -
  have "- 2147483648 \<le> sint a sdiv 2 \<and> sint a sdiv 2 < 2147483648"
    using sint_range32 [of a] sdiv2_bounds [of "sint a"] by linarith
  then show ?thesis by (simp add: int_div_2_def sint_word_of_int_fits)
qed

lemma int_mul_fits:
  assumes "fits_int (sint a * sint b)"
  shows "\<exists>c. int_mul a b = Inr c \<and> sint c = sint a * sint b"
proof -
  have "sint (word_of_int (sint a * sint b) :: cint) = sint a * sint b"
    using assms unfolding fits_int_def by (intro sint_word_of_int_fits) linarith+
  moreover have "int_mul a b = Inr (word_of_int (sint a * sint b))"
    using assms by (simp add: int_mul_def)
  ultimately show ?thesis by blast
qed

lemma int_mul_overflow:
  "\<not> fits_int (sint a * sint b) \<Longrightarrow> int_mul a b = Inl Signed_overflow"
  by (simp add: int_mul_def)

lemma frame_length_eq:
  "(fits_int (sint width * sint height) \<and> fits_int (sint width * sint height * 3) \<longrightarrow>
      (\<exists>n. frame_length width height = Inr n \<and>
           sint n = (sint width * sint height * 3) sdiv 2)) \<and>
   (\<not> (fits_int (sint width * sint height) \<and> fits_int (sint width * sint height * 3)) \<longrightarrow>
      frame_length width height = Inl Signed_overflow)"
proof (cases "fits_int (sint width * sint height)")
  case False
  then show ?thesis by (simp add: frame_length_def int_mul_overflow)
next
  case True
  then obtain wh where wh: "int_mul width height = Inr wh" "sint wh = sint width * sint height"
    using int_mul_fits by blast
  have three: "sint (3 :: cint) = 3" by simp
  show ?thesis
  proof (cases "fits_int (sint width * sint height * 3)")
    case False
    then have "int_mul wh 3 = Inl Signed_overflow"
      using wh three by (simp add: int_mul_overflow)
    then show ?thesis using wh False by (simp add: frame_length_def)
  next
    case f3: True
    then obtain wh3 where wh3: "int_mul wh 3 = Inr wh3" "sint wh3 = sint width * sint height * 3"
      using int_mul_fits [of wh 3] wh three by auto
    then show ?thesis using wh True f3 by (simp add: frame_length_def sint_int_div_2)
  qed
qed

text \<open>
  C10. With a channel in place, the payload of \<^verbatim>\<open>updateCameraFrame\<close> is the first
  \<open>(width * height * 3) / 2\<close> bytes of the buffer, the quotient truncated towards
  zero. This is so when both products fit into an \<^verbatim>\<open>int\<close>; when one does not, the
  computation overflows. A negative quotient becomes a byte count of at least
  \<open>2 ^ 64 - 2 ^ 31\<close>, and a count beyond the buffer reads past its end.
\<close>

theorem camera_frame_payload:
  assumes "channel w = Some ch"
  shows "flutter_bridge_send_camera_frame data width height w =
     (if fits_int (sint width * sint height) \<and> fits_int (sint width * sint height * 3) then
        (if frame_bytes ((sint width * sint height * 3) sdiv 2) \<le> length data then
           Inr (w\<lparr>trace := trace w @
                  [Fl_method_channel_invoke_method (Some ch) ''updateCameraFrame''
                     (FlValueUint8List
                        (take (frame_bytes ((sint width * sint height * 3) sdiv 2)) data))]\<rparr>)
         else Inl Out_of_bounds_read)
      else Inl Signed_overflow)"
proof (cases "fits_int (sint width * sint height) \<and> fits_int (sint width * sint height * 3)")
  case False
  then have "frame_length width height = Inl Signed_overflow"
    using frame_length_eq [of width height] by blast
  then show ?thesis using False assms by (simp add: flutter_bridge_send_camera_frame_def)
next
  case True
  then obtain n where n: "frame_length width height = Inr n"
      "sint n = (sint width * sint height * 3) sdiv 2"
    using frame_length_eq [of width height] by blast
  have "size_t_of_int n = frame_bytes ((sint width * sint height * 3) sdiv 2)"
    using n(2) by (simp add: size_t_of_int_eq frame_bytes_def)
  then show ?thesis using True assms n(1)
    by (simp add: flutter_bridge_send_camera_frame_def fl_value_new_uint8_list_def)
qed

theorem camera_frame_payload_witness:
  "flutter_bridge_send_camera_frame [1, 2, 3, 4, 5, 6, 7, 8, 9, 10, 11, 12, 13, 14] 3 3
     \<lparr>device_static = None, channel = Some (FlMethodChannel ''agnos_flutter''), trace = []\<rparr> =
   Inr \<lparr>device_static = None, channel = Some (FlMethodChannel ''agnos_flutter''),
        trace = [Fl_method_channel_invoke_method (Some (FlMethodChannel ''agnos_flutter''))
                   ''updateCameraFrame''
                   (FlValueUint8List [1, 2, 3, 4, 5, 6, 7, 8, 9, 10, 11, 12, 13])]\<rparr> \<and>
   flutter_bridge_send_camera_frame [] 65536 65536
     \<lparr>device_static = None, channel = Some (FlMethodChannel ''agnos_flutter''), trace = []\<rparr> =
   Inl Signed_overflow \<and>
   flutter_bridge_send_camera_frame [1, 2, 3] (- 1) 1
     \<lparr>device_static = None, channel = Some (FlMethodChannel ''agnos_flutter''), trace = []\<rparr> =
   Inl Out_of_bounds_read"
proof -
  let ?w = "\<lparr>device_static = None, channel = Some (FlMethodChannel ''agnos_flutter''),
             trace = []\<rparr>"
  have c: "channel ?w = Some (FlMethodChannel ''agnos_flutter'')" by simp
  have a: "(27 :: int) sdiv 2 = 13" "(- 3 :: int) sdiv 2 = - 1"
    by (simp_all add: signed_divide_int_def)
  show ?thesis
    using camera_frame_payload [OF c, of "[1, 2, 3, 4, 5, 6, 7, 8, 9, 10, 11, 12, 13, 14]" 3 3]
          camera_frame_payload [OF c, of "[]" 65536 65536]
          camera_frame_payload [OF c, of "[1, 2, 3]" "- 1" 1]
    by (simp add: fits_int_def frame_bytes_def a)
qed

section \<open>The flag and the hardware\<close>

lemma hardware_agrees_device: "hardware_agrees w \<Longrightarrow> hardware_agrees (snd (device w))"
  by (cases "device_static w")
     (simp_all add: hardware_agrees_def device_def Device_ctor_agreement split: prod.splits,
      metis Device_ctor_agreement fst_conv snd_conv)

lemma hardware_agrees_Device_ptr_setAwake:
  "hardware_agrees w \<Longrightarrow> hardware_agrees (Device_ptr_setAwake p on w)"
  by (cases p; cases "device_static w")
     (simp_all add: hardware_agrees_def Device_ptr_setAwake_def split: prod.splits,
      metis setAwake_keeps_agreement fst_conv snd_conv)

lemma hardware_agrees_trace_other:
  assumes "hardware_agrees w" and "display_power_calls es = []"
  shows "hardware_agrees (w\<lparr>trace := trace w @ es\<rparr>)"
  using assms
  by (cases "device_static w")
     (simp_all add: hardware_agrees_def last_display_power_def display_power_calls_append)

lemma hardware_agrees_method_call_handler:
  assumes i: "hardware_agrees w"
  shows "hardware_agrees (method_call_handler g c w)"
proof -
  consider (metric) "fl_method_call_get_name c = ''setMetric''"
    | (awake) "fl_method_call_get_name c \<noteq> ''setMetric''" "fl_method_call_get_name c = ''setAwake''"
    | (other) "fl_method_call_get_name c \<noteq> ''setMetric''" "fl_method_call_get_name c \<noteq> ''setAwake''"
    by blast
  then show ?thesis
  proof cases
    case metric
    then show ?thesis using i
      by (simp add: method_call_handler_def hardware_agrees_trace_other)
  next
    case awake
    then have "method_call_handler g c w =
        Device_ptr_setAwake (fst (device w)) (g (fl_method_call_get_args c)) (snd (device w))"
      by (simp add: method_call_handler_def split: prod.splits)
    then show ?thesis using i
      by (simp add: hardware_agrees_device hardware_agrees_Device_ptr_setAwake)
  next
    case other
    then show ?thesis using i by (simp add: method_call_handler_def)
  qed
qed

lemma hardware_agrees_flutter_bridge_init:
  "hardware_agrees w \<Longrightarrow> hardware_agrees (flutter_bridge_init w)"
  using hardware_agrees_device [of w]
  by (simp add: flutter_bridge_init_def Let_def hardware_agrees_def last_display_power_def
        display_power_calls_append split: option.splits)

lemma hardware_agrees_send_camera_frame:
  "hardware_agrees w \<Longrightarrow> flutter_bridge_send_camera_frame data width height w = Inr w' \<Longrightarrow>
   hardware_agrees w'"
  by (auto simp add: flutter_bridge_send_camera_frame_def hardware_agrees_trace_other
       split: if_splits sum.splits)

lemma hardware_agrees_send_data_body: "hardware_agrees w \<Longrightarrow> hardware_agrees (send_data_body w)"
  by (simp add: send_data_body_def hardware_agrees_trace_other)

lemma hardware_agrees_step: "hardware_agrees w \<Longrightarrow> step g c w = Inr w' \<Longrightarrow> hardware_agrees w'"
  by (cases c)
     (auto simp add: hardware_agrees_device hardware_agrees_flutter_bridge_init
        hardware_agrees_method_call_handler hardware_agrees_send_data_body
        intro: hardware_agrees_send_camera_frame)

lemma hardware_agrees_run: "hardware_agrees w \<Longrightarrow> run g cs w = Inr w' \<Longrightarrow> hardware_agrees w'"
proof (induction cs arbitrary: w)
  case Nil
  then show ?case by simp
next
  case (Cons c cs)
  then show ?case
    by (auto split: sum.splits dest: hardware_agrees_step)
qed

lemma hardware_agrees_process_start: "hardware_agrees process_start"
  by (simp add: hardware_agrees_def process_start_def)

text \<open>
  C8. Construct a device, whatever happened before, and call \<^verbatim>\<open>setAwake\<close> any
  number of times with any arguments: when the last call has returned, the most
  recent value handed to the hardware is the value of the flag. Since the list of
  calls is arbitrary, this holds between any two calls as well. The same is true
  of the process as a whole: in every state that a run reaches and in which the
  device exists, the latest hardware power call carries the value of the flag.
\<close>

theorem awake_agrees_with_hardware:
  "last_display_power (snd (setAwakes ons (Device_ctor tr)))
     = Some (awake (fst (setAwakes ons (Device_ctor tr)))) \<and>
   (run g cs process_start = Inr w \<longrightarrow> device_static w = Some d \<longrightarrow>
      last_display_power (trace w) = Some (awake d))"
proof -
  have "last_display_power (snd (setAwakes ons (Device_ctor tr)))
     = Some (awake (fst (setAwakes ons (Device_ctor tr))))"
    using Device_ctor_agreement by (rule setAwakes_keeps_agreement)
  moreover have "last_display_power (trace w) = Some (awake d)"
    if "run g cs process_start = Inr w" "device_static w = Some d"
    using hardware_agrees_run [OF hardware_agrees_process_start that(1)] that(2)
    by (simp add: hardware_agrees_def)
  ultimately show ?thesis by blast
qed

theorem awake_agrees_with_hardware_witness:
  "run (\<lambda>v. v = FlValueBool True)
     [Call_flutter_bridge_init,
      Call_method_call_handler
        \<lparr>fl_method_call_get_name = ''setAwake'', fl_method_call_get_args = FlValueBool False\<rparr>,
      Call_method_call_handler
        \<lparr>fl_method_call_get_name = ''setMetric'', fl_method_call_get_args = FlValueBool True\<rparr>]
     process_start =
   Inr \<lparr>device_static = Some \<lparr>awake = False\<rparr>,
        channel = Some (FlMethodChannel ''agnos_flutter''),
        trace = [QObject_ctor, Hardware_set_display_power True, Gtk_widget_show,
                 Fl_method_channel_set_method_call_handler, Thread_detach,
                 Hardware_set_display_power False, Cout ''is_metric: 1\<newline>'']\<rparr> \<and>
   last_display_power
     [QObject_ctor, Hardware_set_display_power True, Gtk_widget_show,
      Fl_method_channel_set_method_call_handler, Thread_detach,
      Hardware_set_display_power False, Cout ''is_metric: 1\<newline>''] = Some False"
proof -
  have run: "run (\<lambda>v. v = FlValueBool True)
     [Call_flutter_bridge_init,
      Call_method_call_handler
        \<lparr>fl_method_call_get_name = ''setAwake'', fl_method_call_get_args = FlValueBool False\<rparr>,
      Call_method_call_handler
        \<lparr>fl_method_call_get_name = ''setMetric'', fl_method_call_get_args = FlValueBool True\<rparr>]
     process_start =
   Inr \<lparr>device_static = Some \<lparr>awake = False\<rparr>,
        channel = Some (FlMethodChannel ''agnos_flutter''),
        trace = [QObject_ctor, Hardware_set_display_power True, Gtk_widget_show,
                 Fl_method_channel_set_method_call_handler, Thread_detach,
                 Hardware_set_display_power False, Cout ''is_metric: 1\<newline>'']\<rparr>"
    by (simp add: process_start_def flutter_bridge_init_def device_def Device_ctor_def
        Device_initial_def setAwake_def method_call_handler_def Device_ptr_setAwake_def)
  show ?thesis
    using run awake_agrees_with_hardware
      [THEN conjunct2, rule_format, OF run, of "\<lparr>awake = False\<rparr>"]
    by simp
qed

end
